theory Spec2Isabelle
  imports Main "HOL-Library.Product_Lexorder" "HOL-Library.Multiset"
begin

section \<open>Announcements\<close>

text \<open>
  The engine's \<^verbatim>\<open>Announcement\<close> class (main.py, lines 16-47). The \<^verbatim>\<open>repeat\<close>
  attribute is \<^verbatim>\<open>None\<close>, \<^verbatim>\<open>'daily'\<close> or \<^verbatim>\<open>'weekly'\<close> (the constructor's
  docstring and the editor's combo box). The record is the state of one instance; the
  functions are defined on every extension of the record, as a Python instance may
  carry attributes the class does not declare, and they can read the declared fields
  only.

  A timestamp (\<^verbatim>\<open>datetime\<close>) is an integer counting microseconds, the resolution
  of \<^verbatim>\<open>datetime\<close>, from 1970-01-01 00:00; a \<^verbatim>\<open>timedelta\<close> is a number of
  microseconds. A \<^verbatim>\<open>datetime\<close> lies between \<^verbatim>\<open>datetime.min\<close> (0001-01-01 00:00)
  and \<^verbatim>\<open>datetime.max\<close> (9999-12-31 23:59:59.999999); an addition whose result
  would lie outside raises \<^verbatim>\<open>OverflowError\<close>.
\<close>

datatype py_error =
  ValueError | KeyError | IndexError | TypeError | AttributeError | OverflowError

datatype repeat = Daily | Weekly

record announcement =
  text_template :: string
  play_time :: int
  repeat :: "repeat option"
  voice_id :: int
  priority :: int
  variables :: "string \<rightharpoonup> string"

text \<open>
  The editor dialog (\<^verbatim>\<open>get_announcement\<close>, lines 528-551) produces, next to the
  constructor's six attributes, a \<^verbatim>\<open>repeat_end\<close> timestamp, set when a repeat policy
  is chosen. \<^verbatim>\<open>Announcement.__init__\<close> has no such parameter; an announcement that
  carries one is a value of the extended record.
\<close>

record scheduled = announcement +
  repeat_end :: "int option"

definition datetime_min :: int where
  "datetime_min = - 62135596800000000"

definition datetime_max :: int where
  "datetime_max = 253402300799999999"

text \<open>\<^verbatim>\<open>datetime + timedelta\<close>\<close>

definition datetime_add :: "int \<Rightarrow> int \<Rightarrow> py_error + int" where
  "datetime_add t delta =
     (if datetime_min \<le> t + delta \<and> t + delta \<le> datetime_max then Inr (t + delta)
      else Inl OverflowError)"

definition timedelta_days :: "int \<Rightarrow> int" where
  "timedelta_days n = n * 86400000000"

definition timedelta_weeks :: "int \<Rightarrow> int" where
  "timedelta_weeks n = timedelta_days (7 * n)"

definition is_due :: "'m announcement_scheme \<Rightarrow> int \<Rightarrow> bool" where
  "is_due a now = (now \<ge> play_time a)"

text \<open>
  \<^verbatim>\<open>reschedule\<close> changes the instance in place; the function gives the new state of
  the instance, or the exception raised by \<^verbatim>\<open>self.play_time += timedelta(...)\<close>, in
  which case nothing was assigned.
\<close>

definition reschedule :: "'m announcement_scheme \<Rightarrow> py_error + 'm announcement_scheme" where
  "reschedule a =
     (if repeat a = Some Daily then
        (case datetime_add (play_time a) (timedelta_days 1) of
           Inl e \<Rightarrow> Inl e
         | Inr t \<Rightarrow> Inr (a\<lparr>play_time := t\<rparr>))
      else if repeat a = Some Weekly then
        (case datetime_add (play_time a) (timedelta_weeks 1) of
           Inl e \<Rightarrow> Inl e
         | Inr t \<Rightarrow> Inr (a\<lparr>play_time := t\<rparr>))
      else Inr a)"

text \<open>\<open>n\<close> calls of \<^verbatim>\<open>reschedule\<close> in a row, up to the first that raises.\<close>

fun reschedule_times :: "nat \<Rightarrow> 'm announcement_scheme \<Rightarrow> py_error + 'm announcement_scheme" where
  "reschedule_times 0 a = Inr a"
| "reschedule_times (Suc n) a =
     (case reschedule a of Inl e \<Rightarrow> Inl e | Inr a' \<Rightarrow> reschedule_times n a')"

section \<open>Rendering: \<^verbatim>\<open>str.format\<close> and \<^verbatim>\<open>get_text\<close>\<close>

text \<open>
  \<^verbatim>\<open>get_text\<close> calls \<^verbatim>\<open>self.text_template.format(**self.variables)\<close> and returns
  the template when that raises. The model of \<^verbatim>\<open>str.format\<close> follows CPython's
  scanner (\<^verbatim>\<open>MarkupIterator_next\<close>, \<^verbatim>\<open>parse_field\<close>, \<^verbatim>\<open>get_integer\<close>): literal
  text, doubled braces, and replacement fields \<^verbatim>\<open>{name!conversion:spec}\<close>. There are
  no positional arguments, and the keyword arguments are the variables, strings mapped
  to strings. Strings are sequences of ASCII characters: a character of the model is a
  byte, and CPython also takes the decimal digits beyond ASCII for digits, which
  \<open>is_digit\<close> below does not.

  A field that is a bare key is rendered here in full. What Python does with the value
  of a field that has an attribute or index part, a conversion or a format
  specification is the parameter \<open>py\<close> of the model: any function from the rest of
  the field name, the conversion, the specification, the value and the variables to an
  exception or a string.
\<close>

record field =
  field_name :: string
  conversion :: "char option"
  format_spec :: string

type_synonym field_formatter =
  "string \<Rightarrow> char option \<Rightarrow> string \<Rightarrow> string \<Rightarrow> (string \<rightharpoonup> string) \<Rightarrow> py_error + string"

text \<open>
  \<^verbatim>\<open>parse_field\<close>, first loop: the field name runs up to \<^verbatim>\<open>}\<close>, \<^verbatim>\<open>:\<close> or
  \<^verbatim>\<open>!\<close>; inside \<^verbatim>\<open>[...]\<close> every character is skipped up to the next \<^verbatim>\<open>]\<close>; a
  \<^verbatim>\<open>{\<close> is an error, and so is the end of the string. The result is the name, the
  terminating character and the text after it.
\<close>

lemma length_dropWhile_less_Suc: "length (dropWhile P cs) < Suc (length cs)"
  by (simp add: length_dropWhile_le less_Suc_eq_le)

function scan_field_name :: "string \<Rightarrow> string \<Rightarrow> py_error + (string \<times> char \<times> string)" where
  "scan_field_name acc [] = Inl ValueError"
| "scan_field_name acc (c # cs) =
     (if c = CHR ''{'' then Inl ValueError
      else if c = CHR ''['' then
        scan_field_name (acc @ c # takeWhile (\<lambda>d. d \<noteq> CHR '']'') cs)
          (dropWhile (\<lambda>d. d \<noteq> CHR '']'') cs)
      else if c = CHR ''}'' \<or> c = CHR '':'' \<or> c = CHR ''!'' then Inr (acc, c, cs)
      else scan_field_name (acc @ [c]) cs)"
  by pat_completeness auto
termination
  by (relation "measure (\<lambda>(acc, s). length s)") (simp_all add: length_dropWhile_less_Suc)

text \<open>
  \<^verbatim>\<open>parse_field\<close>, second loop: the format specification runs up to the \<^verbatim>\<open>}\<close>
  that closes the field, counting nested braces from 1.
\<close>

fun scan_format_spec :: "nat \<Rightarrow> string \<Rightarrow> string \<Rightarrow> py_error + (string \<times> string)" where
  "scan_format_spec cnt acc [] = Inl ValueError"
| "scan_format_spec cnt acc (c # cs) =
     (if c = CHR ''{'' then scan_format_spec (cnt + 1) (acc @ [c]) cs
      else if c = CHR ''}'' then
        (if cnt - 1 = 0 then Inr (acc, cs) else scan_format_spec (cnt - 1) (acc @ [c]) cs)
      else scan_format_spec cnt (acc @ [c]) cs)"

definition parse_format_spec :: "string \<Rightarrow> char option \<Rightarrow> string \<Rightarrow> py_error + (field \<times> string)" where
  "parse_format_spec name conv s =
     (case scan_format_spec 1 [] s of
        Inl e \<Rightarrow> Inl e
      | Inr (spec, rest) \<Rightarrow>
          Inr (\<lparr>field_name = name, conversion = conv, format_spec = spec\<rparr>, rest))"

definition parse_field :: "string \<Rightarrow> py_error + (field \<times> string)" where
  "parse_field s =
     (case scan_field_name [] s of
        Inl e \<Rightarrow> Inl e
      | Inr (name, c, rest) \<Rightarrow>
          if c = CHR ''!'' then
            (case rest of
               [] \<Rightarrow> Inl ValueError
             | conv # rest1 \<Rightarrow>
                 (case rest1 of
                    [] \<Rightarrow> parse_format_spec name (Some conv) []
                  | d # rest2 \<Rightarrow>
                      if d = CHR ''}'' then
                        Inr (\<lparr>field_name = name, conversion = Some conv, format_spec = []\<rparr>, rest2)
                      else if d \<noteq> CHR '':'' then Inl ValueError
                      else parse_format_spec name (Some conv) rest2))
          else if c = CHR '':'' then parse_format_spec name None rest
          else Inr (\<lparr>field_name = name, conversion = None, format_spec = []\<rparr>, rest))"

text \<open>
  \<^verbatim>\<open>get_integer\<close>: the first part of a field name is an index into the positional
  arguments when it is a decimal number; more digits than \<^verbatim>\<open>Py_ssize_t\<close> (64 bits)
  holds are a \<^verbatim>\<open>ValueError\<close>.
\<close>

definition is_digit :: "char \<Rightarrow> bool" where
  "is_digit c = (c \<in> set ''0123456789'')"

definition digit_val :: "char \<Rightarrow> int" where
  "digit_val c = int (of_char c) - 48"

definition PY_SSIZE_T_MAX :: int where
  "PY_SSIZE_T_MAX = 2 ^ 63 - 1"

fun get_integer_from :: "int \<Rightarrow> string \<Rightarrow> py_error + int option" where
  "get_integer_from accumulator [] = Inr (Some accumulator)"
| "get_integer_from accumulator (c # cs) =
     (if \<not> is_digit c then Inr None
      else if accumulator > (PY_SSIZE_T_MAX - digit_val c) div 10 then Inl ValueError
      else get_integer_from (accumulator * 10 + digit_val c) cs)"

definition get_integer :: "string \<Rightarrow> py_error + int option" where
  "get_integer s = (if s = [] then Inr None else get_integer_from 0 s)"

text \<open>
  \<^verbatim>\<open>render_field\<close> with an empty tuple of positional arguments: an empty or numeric
  first part of the name is an \<^verbatim>\<open>IndexError\<close>, a key that is not among the
  variables a \<^verbatim>\<open>KeyError\<close>; the value of a bare key is formatted with the empty
  specification, which for a string is the string itself.
\<close>

definition render_field :: "field_formatter \<Rightarrow> (string \<rightharpoonup> string) \<Rightarrow> field \<Rightarrow> py_error + string" where
  "render_field py kwargs f =
     (let first = takeWhile (\<lambda>c. c \<noteq> CHR ''.'' \<and> c \<noteq> CHR ''['') (field_name f);
          rest = dropWhile (\<lambda>c. c \<noteq> CHR ''.'' \<and> c \<noteq> CHR ''['') (field_name f)
      in case get_integer first of
           Inl e \<Rightarrow> Inl e
         | Inr (Some idx) \<Rightarrow> Inl IndexError
         | Inr None \<Rightarrow>
             if first = [] then Inl IndexError
             else (case kwargs first of
                     None \<Rightarrow> Inl KeyError
                   | Some v \<Rightarrow>
                       if rest = [] \<and> conversion f = None \<and> format_spec f = [] then Inr v
                       else py rest (conversion f) (format_spec f) v kwargs))"

lemma scan_field_name_shorter:
  "scan_field_name acc s = Inr (name, c, rest) \<Longrightarrow> length rest < length s"
proof (induction acc s rule: scan_field_name.induct)
  case (1 acc)
  then show ?case by simp
next
  case (2 acc c cs)
  have "length (dropWhile (\<lambda>d. d \<noteq> CHR '']'') cs) \<le> length cs"
    by (rule length_dropWhile_le)
  with 2 show ?case
    by (auto split: if_splits simp: less_Suc_eq_le intro: less_imp_le order.trans)
qed

lemma scan_format_spec_shorter:
  "scan_format_spec cnt acc s = Inr (spec, rest) \<Longrightarrow> length rest < length s"
  by (induction cnt acc s rule: scan_format_spec.induct)
     (auto split: if_splits simp: less_Suc_eq)

lemma parse_format_spec_shorter:
  "parse_format_spec name conv s = Inr (f, rest) \<Longrightarrow> length rest < length s"
  by (auto simp: parse_format_spec_def split: sum.splits dest: scan_format_spec_shorter)

lemma parse_field_shorter:
  assumes "parse_field s = Inr (f, rest)"
  shows "length rest < length s"
proof (cases "scan_field_name [] s")
  case (Inl e)
  with assms show ?thesis by (simp add: parse_field_def)
next
  case (Inr r)
  obtain name c rest0 where r: "r = (name, c, rest0)" by (cases r)
  from Inr r have len: "length rest0 < length s"
    by (auto dest: scan_field_name_shorter)
  from assms Inr r len show ?thesis
    by (auto simp: parse_field_def split: if_splits list.splits
             dest!: parse_format_spec_shorter)
qed

text \<open>
  The scanner of \<^verbatim>\<open>str.format\<close>: a doubled brace is a literal brace, a single
  \<^verbatim>\<open>}\<close> and a \<^verbatim>\<open>{\<close> at the end are errors, and any other \<^verbatim>\<open>{\<close> opens a
  replacement field. The first error met from the left is the one raised.
\<close>

function py_format :: "field_formatter \<Rightarrow> (string \<rightharpoonup> string) \<Rightarrow> string \<Rightarrow> py_error + string" where
  "py_format py kwargs [] = Inr []"
| "py_format py kwargs (c # cs) =
     (if c = CHR ''{'' \<or> c = CHR ''}'' then
        (case cs of
           [] \<Rightarrow> Inl ValueError
         | d # ds \<Rightarrow>
             if d = c then
               (case py_format py kwargs ds of Inl e \<Rightarrow> Inl e | Inr out \<Rightarrow> Inr (c # out))
             else if c = CHR ''}'' then Inl ValueError
             else
               (case parse_field cs of
                  Inl e \<Rightarrow> Inl e
                | Inr (f, rest) \<Rightarrow>
                    (case render_field py kwargs f of
                       Inl e \<Rightarrow> Inl e
                     | Inr s \<Rightarrow>
                         (case py_format py kwargs rest of
                            Inl e \<Rightarrow> Inl e
                          | Inr out \<Rightarrow> Inr (s @ out)))))
      else (case py_format py kwargs cs of Inl e \<Rightarrow> Inl e | Inr out \<Rightarrow> Inr (c # out)))"
  by pat_completeness auto
termination
  by (relation "measure (\<lambda>(py, kwargs, s). length s)")
     (auto dest: parse_field_shorter)

definition get_text :: "field_formatter \<Rightarrow> 'm announcement_scheme \<Rightarrow> string" where
  "get_text py a =
     (case py_format py (variables a) (text_template a) of
        Inr s \<Rightarrow> s
      | Inl e \<Rightarrow> text_template a)"

section \<open>The playback queue\<close>

text \<open>
  The engine's \<^verbatim>\<open>AnnouncementQueue\<close> (main.py, lines 50-109), with explicit state.
  \<^item> \<open>objects\<close> is the store of \<^verbatim>\<open>Announcement\<close> instances: the state of the
    instance behind each reference. The pending list, the current announcement, the
    thread's argument and the caller's watch list hold references, so that an
    instance changed in place by \<^verbatim>\<open>reschedule\<close> is changed wherever it is referred
    to, and \<^verbatim>\<open>list.remove\<close> compares by identity.
  \<^item> \<open>playing_thread\<close> is the \<^verbatim>\<open>Thread\<close> object: the announcement it was started
    with and whether it is alive. A thread is alive from its start until its target
    returns; in particular it is alive while \<^verbatim>\<open>_play_announcement\<close> runs, since that
    is the thread's target.
  \<^item> \<open>status_bar\<close> lists the messages shown by \<^verbatim>\<open>showMessage\<close>, oldest first.
  \<^item> \<open>engine_stops\<close> counts the calls of \<^verbatim>\<open>engine.stop()\<close>, and \<open>threads_started\<close>
    lists the announcements for which a playback thread was started, oldest first: the
    play order.
  \<^item> \<open>lock_held\<close> says whether \<^verbatim>\<open>self.lock\<close> is held, and \<open>unlocked_accesses\<close>
    lists, oldest first, the reads and writes of the pending list, of
    \<^verbatim>\<open>current_announcement\<close> and of \<^verbatim>\<open>interrupted\<close> that were made while it was
    not held.
  The model is sequential: a call of \<^verbatim>\<open>add_announcement\<close> or
  \<^verbatim>\<open>interrupt_with_live\<close> is one step, and so is the run of a playback thread, taken at
  the moment the thread ends; between steps the lock is free.
\<close>

type_synonym ref = nat

datatype 'a thread = Thread (thread_args: 'a) (thread_alive: bool)

datatype shared = Queue | Current | Interrupted

datatype access = Read shared | Write shared

record 'm announcement_queue =
  objects :: "ref \<Rightarrow> 'm announcement_scheme"
  queue :: "ref list"
  current_announcement :: "ref option"
  voices :: "string list"
  status_bar :: "string list"
  playing_thread :: "ref thread option"
  interrupted :: bool
  lock_held :: bool
  unlocked_accesses :: "access list"
  engine_stops :: nat
  threads_started :: "ref list"

definition new_queue :: "string list \<Rightarrow> (ref \<Rightarrow> 'm announcement_scheme) \<Rightarrow> 'm announcement_queue" where
  "new_queue vs objs =
     \<lparr>objects = objs, queue = [], current_announcement = None, voices = vs, status_bar = [],
      playing_thread = None, interrupted = False, lock_held = False, unlocked_accesses = [],
      engine_stops = 0, threads_started = []\<rparr>"

definition showMessage :: "string \<Rightarrow> 'm announcement_queue \<Rightarrow> 'm announcement_queue" where
  "showMessage msg st = st\<lparr>status_bar := status_bar st @ [msg]\<rparr>"

text \<open>Entering and leaving \<^verbatim>\<open>with self.lock:\<close>, and the record of an access.\<close>

definition acquire :: "'m announcement_queue \<Rightarrow> 'm announcement_queue" where
  "acquire st = st\<lparr>lock_held := True\<rparr>"

definition release :: "'m announcement_queue \<Rightarrow> 'm announcement_queue" where
  "release st = st\<lparr>lock_held := False\<rparr>"

definition accessing :: "access \<Rightarrow> 'm announcement_queue \<Rightarrow> 'm announcement_queue" where
  "accessing x st =
     (if lock_held st then st else st\<lparr>unlocked_accesses := unlocked_accesses st @ [x]\<rparr>)"

text \<open>\<^verbatim>\<open>self.playing_thread and self.playing_thread.is_alive()\<close>\<close>

definition is_playing :: "'m announcement_queue \<Rightarrow> bool" where
  "is_playing st = (case playing_thread st of None \<Rightarrow> False | Some t \<Rightarrow> thread_alive t)"

definition try_play_next :: "'m announcement_queue \<Rightarrow> 'm announcement_queue" where
  "try_play_next st =
     (if is_playing st then st
      else
        (let st1 = accessing (Read Queue) st in
         case queue st1 of
           [] \<Rightarrow> st1
         | next_ann # rest \<Rightarrow>
             (let st2 = (accessing (Write Queue) st1)\<lparr>queue := rest\<rparr>;
                  st3 = (accessing (Write Current) st2)\<lparr>current_announcement := Some next_ann\<rparr>;
                  st4 = (accessing (Write Interrupted) st3)\<lparr>interrupted := False\<rparr>
              in st4\<lparr>playing_thread := Some (Thread next_ann True),
                     threads_started := threads_started st4 @ [next_ann]\<rparr>)))"

text \<open>The sort key \<^verbatim>\<open>lambda a: (-a.priority, a.play_time)\<close> of an instance, and of the
  instance behind a reference; tuples compare lexicographically, and \<^verbatim>\<open>list.sort\<close> is
  stable, as \<^const>\<open>sort_key\<close> is.\<close>

definition queue_key :: "'m announcement_scheme \<Rightarrow> int \<times> int" where
  "queue_key a = (- priority a, play_time a)"

definition key_in :: "(ref \<Rightarrow> 'm announcement_scheme) \<Rightarrow> ref \<Rightarrow> int \<times> int" where
  "key_in objs r = queue_key (objs r)"

definition add_announcement ::
  "field_formatter \<Rightarrow> ref \<Rightarrow> 'm announcement_queue \<Rightarrow> 'm announcement_queue" where
  "add_announcement py announcement st =
     (let st1 = acquire st;
          st2 = (accessing (Write Queue) st1)\<lparr>queue := queue st1 @ [announcement]\<rparr>;
          st3 = (accessing (Write Queue) st2)\<lparr>queue := sort_key (key_in (objects st2)) (queue st2)\<rparr>;
          st4 = release st3;
          st5 = showMessage (''Announcement queued: '' @ get_text py (objects st4 announcement)) st4
      in try_play_next st5)"

definition interrupt_with_live ::
  "ref \<Rightarrow> 'm announcement_queue \<Rightarrow> 'm announcement_queue" where
  "interrupt_with_live announcement st =
     (let st1 = acquire st;
          st2 = (if is_playing st1
                 then (accessing (Write Interrupted) st1)
                        \<lparr>interrupted := True, engine_stops := engine_stops st1 + 1\<rparr>
                 else st1);
          st3 = (accessing (Write Queue) st2)\<lparr>queue := announcement # queue st2\<rparr>;
          st4 = release st3;
          st5 = showMessage ''Live announcement started...'' st4
      in try_play_next st5)"

text \<open>
  What the speech engine does during one playback: every call returns (the utterance was
  spoken, or cut short by \<^verbatim>\<open>stop\<close>), or \<^verbatim>\<open>setProperty\<close> raises an exception, or
  \<^verbatim>\<open>say\<close> or \<^verbatim>\<open>runAndWait\<close> does; the string is the exception's message.
\<close>

datatype playback = Spoken | SetPropertyRaises string | SpeakRaises string

text \<open>\<^verbatim>\<open>self.voices[announcement.voice_id]\<close>: a negative index counts from the end.\<close>

definition voice_at :: "string list \<Rightarrow> int \<Rightarrow> py_error + string" where
  "voice_at vs i =
     (let n = int (length vs); j = (if i < 0 then n + i else i)
      in if 0 \<le> j \<and> j < n then Inr (vs ! nat j) else Inl IndexError)"

text \<open>The \<^verbatim>\<open>try\<close> and \<^verbatim>\<open>except\<close> blocks of \<^verbatim>\<open>_play_announcement\<close>.\<close>

definition speak ::
  "field_formatter \<Rightarrow> playback \<Rightarrow> ref \<Rightarrow> 'm announcement_queue \<Rightarrow> 'm announcement_queue" where
  "speak py outcome announcement st =
     (case voice_at (voices st) (voice_id (objects st announcement)) of
        Inl e \<Rightarrow> showMessage ''Error playing announcement: list index out of range'' st
      | Inr v \<Rightarrow>
          (case outcome of
             SetPropertyRaises e \<Rightarrow> showMessage (''Error playing announcement: '' @ e) st
           | SpeakRaises e \<Rightarrow>
               showMessage (''Error playing announcement: '' @ e)
                 (showMessage (''Playing: '' @ get_text py (objects st announcement)) st)
           | Spoken \<Rightarrow> showMessage (''Playing: '' @ get_text py (objects st announcement)) st))"

text \<open>
  \<^verbatim>\<open>_play_announcement\<close>: the playback, then the \<^verbatim>\<open>finally\<close> block. The result is
  the state when the function returns, or, when \<^verbatim>\<open>reschedule\<close> raises inside the
  \<^verbatim>\<open>finally\<close> block, the exception and the state at that moment: the rest of the
  block is not run.
\<close>

definition play_announcement ::
  "field_formatter \<Rightarrow> playback \<Rightarrow> ref \<Rightarrow> 'm announcement_queue
     \<Rightarrow> (py_error \<times> 'm announcement_queue) + 'm announcement_queue" where
  "play_announcement py outcome announcement st =
     (let st1 = speak py outcome announcement st in
      if repeat (objects st1 announcement) \<noteq> None then
        (case reschedule (objects st1 announcement) of
           Inl e \<Rightarrow> Inl (e, st1)
         | Inr a' \<Rightarrow>
             (let st2 = st1\<lparr>objects := (objects st1)(announcement := a')\<rparr>;
                  st3 = add_announcement py announcement st2;
                  st4 = (accessing (Write Current) st3)\<lparr>current_announcement := None\<rparr>
              in Inr (try_play_next st4)))
      else
        (let st4 = (accessing (Write Current) st1)\<lparr>current_announcement := None\<rparr>
         in Inr (try_play_next st4)))"

definition state_after :: "(py_error \<times> 's) + 's \<Rightarrow> 's" where
  "state_after r = (case r of Inl (e, st) \<Rightarrow> st | Inr st \<Rightarrow> st)"

text \<open>
  The run of the playback thread: \<^verbatim>\<open>_play_announcement\<close> on the announcement the
  thread was started with; whether it returns or raises, the thread is no longer alive
  afterwards.
\<close>

definition run_playing_thread ::
  "field_formatter \<Rightarrow> playback \<Rightarrow> 'm announcement_queue \<Rightarrow> 'm announcement_queue" where
  "run_playing_thread py outcome st =
     (case playing_thread st of
        None \<Rightarrow> st
      | Some t \<Rightarrow>
          if thread_alive t then
            (let st' = state_after (play_announcement py outcome (thread_args t) st)
             in st'\<lparr>playing_thread :=
                      map_option (\<lambda>t'. Thread (thread_args t') False) (playing_thread st')\<rparr>)
          else st)"

section \<open>The due-checker\<close>

text \<open>
  \<^verbatim>\<open>VoiceAnnouncementApp.check_schedules\<close> (lines 1003-1009). The \<^verbatim>\<open>for\<close> loop over
  the watch list is Python's list iterator: an index that is compared with the current
  length of the list before every step, while the body removes elements from that list.
  \<^verbatim>\<open>list.remove\<close> deletes the first element equal to its argument; the elements are
  references.
\<close>

record 'm app =
  schedule_manager_announcements :: "ref list"
  announcement_queue :: "'m announcement_queue"

function check_schedules_from ::
  "field_formatter \<Rightarrow> int \<Rightarrow> nat \<Rightarrow> 'm app \<Rightarrow> 'm app" where
  "check_schedules_from py now i app =
     (if i < length (schedule_manager_announcements app) then
        (let ann = schedule_manager_announcements app ! i in
         if is_due (objects (announcement_queue app) ann) now then
           (let app1 = app\<lparr>announcement_queue :=
                              add_announcement py ann (announcement_queue app)\<rparr>;
                app2 = (if repeat (objects (announcement_queue app1) ann) = None
                        then app1\<lparr>schedule_manager_announcements :=
                                     remove1 ann (schedule_manager_announcements app1)\<rparr>
                        else app1)
            in check_schedules_from py now (i + 1) app2)
         else check_schedules_from py now (i + 1) app)
      else app)"
  by pat_completeness auto
termination
proof (relation "measure (\<lambda>(py, now, i, app). length (schedule_manager_announcements app) - i)")
  show "wf (measure (\<lambda>(py, now, i, app :: 'm app). length (schedule_manager_announcements app) - i))"
    by simp
next
  fix py :: field_formatter and now :: int and i :: nat and app :: "'m app"
    and ann app1 app2
  assume lt: "i < length (schedule_manager_announcements app)"
    and app1: "app1 = app\<lparr>announcement_queue := add_announcement py ann (announcement_queue app)\<rparr>"
    and app2: "app2 = (if repeat (objects (announcement_queue app1) ann) = None
                        then app1\<lparr>schedule_manager_announcements :=
                                     remove1 ann (schedule_manager_announcements app1)\<rparr>
                        else app1)"
  have "length (remove1 ann (schedule_manager_announcements app))
          \<le> length (schedule_manager_announcements app)"
    by (simp add: length_remove1)
  with lt app1 app2
  show "((py, now, i + 1, app2), (py, now, i, app))
          \<in> measure (\<lambda>(py, now, i, app). length (schedule_manager_announcements app) - i)"
    by (auto split: if_splits)
next
  fix py :: field_formatter and now :: int and i :: nat and app :: "'m app"
  assume "i < length (schedule_manager_announcements app)"
  then show "((py, now, i + 1, app), (py, now, i, app))
          \<in> measure (\<lambda>(py, now, i, app). length (schedule_manager_announcements app) - i)"
    by auto
qed

definition check_schedules :: "field_formatter \<Rightarrow> int \<Rightarrow> 'm app \<Rightarrow> 'm app" where
  "check_schedules py now app = check_schedules_from py now 0 app"

section \<open>The second definitions\<close>

text \<open>
  \<^verbatim>\<open>Announcement\<close> and \<^verbatim>\<open>AnnouncementQueue\<close> are defined a second time (lines 566-589,
  ``dummy classes''); these are the classes bound to the two names once the module has
  been loaded, and the ones \<^verbatim>\<open>VoiceAnnouncementApp\<close> instantiates.
\<close>

record dummy_announcement =
  dummy_text :: string
  created_at :: int
  dummy_priority :: int

definition dummy_is_due :: "dummy_announcement \<Rightarrow> int \<Rightarrow> bool" where
  "dummy_is_due a now = True"

record dummy_announcement_queue =
  dummy_queue :: "dummy_announcement list"
  dummy_voices :: "string list"
  dummy_status_bar :: "string list"

definition new_dummy_queue :: "string list \<Rightarrow> dummy_announcement_queue" where
  "new_dummy_queue vs = \<lparr>dummy_queue = [], dummy_voices = vs, dummy_status_bar = []\<rparr>"

definition dummy_interrupt_with_live :: "dummy_announcement \<Rightarrow> dummy_announcement_queue \<Rightarrow> dummy_announcement_queue" where
  "dummy_interrupt_with_live ann st =
     st\<lparr>dummy_status_bar := dummy_status_bar st @ [''Live: '' @ dummy_text ann]\<rparr>"

definition dummy_add_announcement :: "dummy_announcement \<Rightarrow> dummy_announcement_queue \<Rightarrow> dummy_announcement_queue" where
  "dummy_add_announcement ann st =
     (let st1 = st\<lparr>dummy_queue := dummy_queue st @ [ann]\<rparr>
      in st1\<lparr>dummy_status_bar := dummy_status_bar st1 @ [''Queued: '' @ dummy_text ann]\<rparr>)"

text \<open>
  The second constructor takes a text, a creation time and a priority. To run both
  queues on the same calls, an engine announcement is read as the second kind of
  announcement with the same text, time and priority.
\<close>

definition as_dummy :: "'m announcement_scheme \<Rightarrow> dummy_announcement" where
  "as_dummy a =
     \<lparr>dummy_text = text_template a, created_at = play_time a, dummy_priority = priority a\<rparr>"

section \<open>Templates with bare placeholders\<close>








section \<open>Example data\<close>

text \<open>
  The templates of the examples have no replacement fields with a conversion, a
  specification or an attribute part, so the formatter of such fields is never called;
  one that always raises stands in for it. The example store holds seven instances
  behind the references \<open>ref_A\<close> to \<open>ref_W\<close>; their times are between 10:00 and
  10:15 on 1970-01-01.
\<close>

definition unused_formatter :: field_formatter where
  "unused_formatter rest conv spec v kwargs = Inl ValueError"

definition ex_A :: announcement where
  "ex_A = \<lparr>text_template = ''A'', play_time = 36000000000, repeat = None, voice_id = 0,
           priority = 1, variables = Map.empty\<rparr>"

definition ex_B :: announcement where
  "ex_B = \<lparr>text_template = ''B'', play_time = 36300000000, repeat = None, voice_id = 0,
           priority = 5, variables = Map.empty\<rparr>"

definition ex_C :: announcement where
  "ex_C = \<lparr>text_template = ''C'', play_time = 36060000000, repeat = None, voice_id = 0,
           priority = 5, variables = Map.empty\<rparr>"

definition ex_X :: announcement where
  "ex_X = \<lparr>text_template = ''X'', play_time = 36000000000, repeat = None, voice_id = 0,
           priority = 9, variables = Map.empty\<rparr>"

definition ex_Y :: announcement where
  "ex_Y = \<lparr>text_template = ''Y'', play_time = 36000000000, repeat = None, voice_id = 0,
           priority = 1, variables = Map.empty\<rparr>"

definition ex_Z :: announcement where
  "ex_Z = \<lparr>text_template = ''Z'', play_time = 36600000000, repeat = None, voice_id = 0,
           priority = 1, variables = Map.empty\<rparr>"

definition ex_W :: announcement where
  "ex_W = \<lparr>text_template = ''W'', play_time = 36900000000, repeat = None, voice_id = 0,
           priority = 0, variables = Map.empty\<rparr>"

definition ref_A :: ref where "ref_A = 0"

definition ref_B :: ref where "ref_B = 1"

definition ref_C :: ref where "ref_C = 2"

definition ref_X :: ref where "ref_X = 3"

definition ref_Y :: ref where "ref_Y = 4"

definition ref_Z :: ref where "ref_Z = 5"

definition ref_W :: ref where "ref_W = 6"

definition ex_objects :: "ref \<Rightarrow> announcement" where
  "ex_objects r =
     (if r = ref_A then ex_A else if r = ref_B then ex_B else if r = ref_C then ex_C
      else if r = ref_X then ex_X else if r = ref_Y then ex_Y else if r = ref_Z then ex_Z
      else ex_W)"

text \<open>A weekly announcement for 2024-01-08 08:00 whose recurrence ends on 2024-01-10
  00:00, and the store that holds it behind every reference.\<close>

definition ex_weekly :: scheduled where
  "ex_weekly = \<lparr>text_template = ''Weekly'', play_time = 1704700800000000, repeat = Some Weekly,
           voice_id = 0, priority = 1, variables = Map.empty,
           repeat_end = Some 1704844800000000\<rparr>"


text \<open>A daily announcement for 9999-12-31 08:00, the last day of \<^verbatim>\<open>datetime\<close>, and
  the store that holds it behind every reference.\<close>

definition ex_last_day :: announcement where
  "ex_last_day = \<lparr>text_template = ''Last'', play_time = 253402243200000000, repeat = Some Daily,
           voice_id = 0, priority = 1, variables = Map.empty\<rparr>"


lemmas example_defs = ex_A_def ex_B_def ex_C_def ex_X_def ex_Y_def ex_Z_def ex_W_def
  ref_A_def ref_B_def ref_C_def ref_X_def ref_Y_def ref_Z_def ref_W_def ex_objects_def

lemmas queue_defs = add_announcement_def interrupt_with_live_def try_play_next_def
  is_playing_def showMessage_def new_queue_def queue_key_def key_in_def
  run_playing_thread_def play_announcement_def state_after_def speak_def voice_at_def
  acquire_def release_def accessing_def Let_def

section \<open>Basic facts about the queue\<close>

lemma try_play_next_playing: "is_playing st \<Longrightarrow> try_play_next st = st"
  by (simp add: try_play_next_def)

lemma add_announcement_playing:
  "is_playing st \<Longrightarrow>
   add_announcement py r st =
     st\<lparr>queue := sort_key (key_in (objects st)) (queue st @ [r]),
        status_bar := status_bar st @ [''Announcement queued: '' @ get_text py (objects st r)],
        lock_held := False\<rparr>"
  by (simp add: add_announcement_def Let_def try_play_next_def is_playing_def showMessage_def
        acquire_def release_def accessing_def)

lemma is_playing_showMessage: "is_playing (showMessage m st) = is_playing st"
  by (simp add: is_playing_def showMessage_def)

lemma is_playing_speak: "is_playing (speak py outcome r st) = is_playing st"
  by (simp add: speak_def is_playing_showMessage split: sum.splits playback.splits)

lemma speak_status_only:
  "speak py outcome r st = st\<lparr>status_bar := status_bar (speak py outcome r st)\<rparr>"
  by (simp add: speak_def showMessage_def split: sum.splits playback.splits)

lemma queue_speak: "queue (speak py outcome r st) = queue st"
  by (subst speak_status_only) simp

lemma objects_speak: "objects (speak py outcome r st) = objects st"
  by (subst speak_status_only) simp

lemma threads_started_speak: "threads_started (speak py outcome r st) = threads_started st"
  by (subst speak_status_only) simp

lemma playing_thread_speak: "playing_thread (speak py outcome r st) = playing_thread st"
  by (subst speak_status_only) simp

lemma interrupted_speak: "interrupted (speak py outcome r st) = interrupted st"
  by (subst speak_status_only) simp

lemma unlocked_accesses_speak:
  "unlocked_accesses (speak py outcome r st) = unlocked_accesses st"
  by (subst speak_status_only) simp

lemma lock_held_speak: "lock_held (speak py outcome r st) = lock_held st"
  by (subst speak_status_only) simp

text \<open>Sorting a sorted prefix again changes nothing: the sort is stable.\<close>

lemma sort_key_sort_key_append:
  "sort_key f (sort_key f xs @ ys) = sort_key f (xs @ ys)"
proof (rule properties_for_sort_key)
  show "mset (sort_key f (xs @ ys)) = mset (sort_key f xs @ ys)" by simp
  show "sorted (map f (sort_key f (xs @ ys)))" by simp
  fix k assume "k \<in> set (sort_key f (xs @ ys))"
  have st: "filter (\<lambda>x. f k = f x) (sort_key f zs) = filter (\<lambda>x. f k = f x) zs" for zs
    using sort_key_stable [of f "f k" zs] by (simp add: eq_commute)
  show "filter (\<lambda>x. f k = f x) (sort_key f (xs @ ys))
          = filter (\<lambda>x. f k = f x) (sort_key f xs @ ys)"
    by (simp add: st)
qed

lemma fold_add_playing:
  "is_playing st \<Longrightarrow>
     is_playing (fold (add_announcement py) (a # as) st) \<and>
     queue (fold (add_announcement py) (a # as) st)
       = sort_key (key_in (objects st)) (queue st @ a # as) \<and>
     objects (fold (add_announcement py) (a # as) st) = objects st \<and>
     threads_started (fold (add_announcement py) (a # as) st) = threads_started st \<and>
     current_announcement (fold (add_announcement py) (a # as) st) = current_announcement st"
proof (induction as arbitrary: st a)
  case Nil
  from Nil show ?case
    by (simp add: add_announcement_playing is_playing_def)
next
  case (Cons b as)
  let ?st1 = "add_announcement py a st"
  from Cons.prems have st1: "?st1 = st\<lparr>queue := sort_key (key_in (objects st)) (queue st @ [a]),
        status_bar := status_bar st @ [''Announcement queued: '' @ get_text py (objects st a)],
        lock_held := False\<rparr>"
    by (rule add_announcement_playing)
  from Cons.prems st1 have p1: "is_playing ?st1" by (simp add: is_playing_def)
  have "sort_key (key_in (objects st)) (sort_key (key_in (objects st)) (queue st @ [a]) @ b # as)
          = sort_key (key_in (objects st)) ((queue st @ [a]) @ b # as)"
    by (rule sort_key_sort_key_append)
  with Cons.IH [OF p1, of b] st1 show ?case
    by simp
qed

text \<open>On a queue with no playback thread alive, \<^verbatim>\<open>add_announcement\<close> sorts the
  pending list with the new announcement and starts the head of it.\<close>

lemma add_announcement_idle:
  assumes "\<not> is_playing st"
  shows "queue (add_announcement py r st)
           = tl (sort_key (key_in (objects st)) (queue st @ [r]))"
    and "threads_started (add_announcement py r st)
           = threads_started st @ [hd (sort_key (key_in (objects st)) (queue st @ [r]))]"
    and "current_announcement (add_announcement py r st)
           = Some (hd (sort_key (key_in (objects st)) (queue st @ [r])))"
    and "objects (add_announcement py r st) = objects st"
    and "is_playing (add_announcement py r st)"
proof -
  have "sort_key (key_in (objects st)) (queue st @ [r]) \<noteq> []"
    by (metis append_is_Nil_conv length_0_conv length_sort not_Cons_self2)
  then obtain x xs where s: "sort_key (key_in (objects st)) (queue st @ [r]) = x # xs"
    by (cases "sort_key (key_in (objects st)) (queue st @ [r])") auto
  from assms s show
    "queue (add_announcement py r st)
           = tl (sort_key (key_in (objects st)) (queue st @ [r]))"
    "threads_started (add_announcement py r st)
           = threads_started st @ [hd (sort_key (key_in (objects st)) (queue st @ [r]))]"
    "current_announcement (add_announcement py r st)
           = Some (hd (sort_key (key_in (objects st)) (queue st @ [r])))"
    "objects (add_announcement py r st) = objects st"
    "is_playing (add_announcement py r st)"
    by (simp_all add: add_announcement_def Let_def try_play_next_def is_playing_def
          showMessage_def acquire_def release_def accessing_def)
qed

lemma sorted_tl_sort_key: "sort_key f (tl (sort_key f xs)) = tl (sort_key f xs)"
proof -
  have "sorted (map f (sort_key f xs))" by simp
  then have "sorted (map f (tl (sort_key f xs)))"
    by (cases "sort_key f xs") simp_all
  then show ?thesis by (rule sort_key_id_if_sorted)
qed

section \<open>Play order of enqueued announcements\<close>

text \<open>
  C1, as amended. For every non-empty sequence of \<^verbatim>\<open>add_announcement\<close> calls made on
  a queue with no playback thread alive, with no playback finishing in between: the
  first call sorts the pending list together with the new announcement and at once
  dequeues and starts the head of the result, which is the first announcement enqueued
  itself when nothing was pending, whatever its priority. After the whole sequence the
  pending list is the stable sort, by the key \<open>(-priority, play_time)\<close> ascending, of
  what the first call left pending followed by the later announcements in enqueue
  order: it is sorted by the key, it holds exactly these announcements, and
  announcements with equal keys keep that order.
\<close>

theorem enqueue_order:
  "\<not> is_playing st \<longrightarrow>
     threads_started (fold (add_announcement py) (a # as) st)
       = threads_started st @ [hd (sort_key (key_in (objects st)) (queue st @ [a]))] \<and>
     current_announcement (fold (add_announcement py) (a # as) st)
       = Some (hd (sort_key (key_in (objects st)) (queue st @ [a]))) \<and>
     queue (fold (add_announcement py) (a # as) st)
       = sort_key (key_in (objects st))
           (tl (sort_key (key_in (objects st)) (queue st @ [a])) @ as) \<and>
     sorted (map (key_in (objects st)) (queue (fold (add_announcement py) (a # as) st))) \<and>
     mset (queue (fold (add_announcement py) (a # as) st))
       = mset (tl (sort_key (key_in (objects st)) (queue st @ [a])) @ as) \<and>
     (\<forall>k. filter (\<lambda>x. key_in (objects st) x = k) (queue (fold (add_announcement py) (a # as) st))
        = filter (\<lambda>x. key_in (objects st) x = k)
            (tl (sort_key (key_in (objects st)) (queue st @ [a])) @ as)) \<and>
     objects (fold (add_announcement py) (a # as) st) = objects st \<and>
     (queue st = [] \<longrightarrow>
        threads_started (fold (add_announcement py) (a # as) st) = threads_started st @ [a] \<and>
        queue (fold (add_announcement py) (a # as) st) = sort_key (key_in (objects st)) as)"
proof
  assume idle: "\<not> is_playing st"
  let ?k = "key_in (objects st)"
  let ?s = "sort_key ?k (queue st @ [a])"
  let ?st1 = "add_announcement py a st"
  let ?st' = "fold (add_announcement py) (a # as) st"
  note first = add_announcement_idle [OF idle, of py a]
  have main: "threads_started ?st' = threads_started st @ [hd ?s] \<and>
      current_announcement ?st' = Some (hd ?s) \<and>
      queue ?st' = sort_key ?k (tl ?s @ as) \<and> objects ?st' = objects st"
  proof (cases as)
    case Nil
    with first show ?thesis by (simp add: sorted_tl_sort_key)
  next
    case (Cons b bs)
    from fold_add_playing [OF first(5), of py b bs] first Cons show ?thesis by simp
  qed
  have empty: "queue st = [] \<longrightarrow>
        threads_started ?st' = threads_started st @ [a] \<and> queue ?st' = sort_key ?k as"
    using main by simp
  from main empty
  show "threads_started ?st' = threads_started st @ [hd ?s] \<and>
     current_announcement ?st' = Some (hd ?s) \<and>
     queue ?st' = sort_key ?k (tl ?s @ as) \<and>
     sorted (map ?k (queue ?st')) \<and>
     mset (queue ?st') = mset (tl ?s @ as) \<and>
     (\<forall>k. filter (\<lambda>x. ?k x = k) (queue ?st') = filter (\<lambda>x. ?k x = k) (tl ?s @ as)) \<and>
     objects ?st' = objects st \<and>
     (queue st = [] \<longrightarrow>
        threads_started ?st' = threads_started st @ [a] \<and> queue ?st' = sort_key ?k as)"
    by (simp add: sort_key_stable)
qed

text \<open>
  Two instances of the theorem: A, B, C enqueued on a new queue, and A, B enqueued on
  the queue that a finished playback of Y has left with X (priority 9) pending and no
  thread alive: there X is started, not A, and B, A are pending.
\<close>

theorem enqueue_order_witness:
  "\<not> is_playing (new_queue [''v0''] ex_objects) \<and>
   threads_started (fold (add_announcement unused_formatter) [ref_A, ref_B, ref_C]
      (new_queue [''v0''] ex_objects)) = [ref_A] \<and>
   queue (fold (add_announcement unused_formatter) [ref_A, ref_B, ref_C]
      (new_queue [''v0''] ex_objects)) = [ref_C, ref_B] \<and>
   \<not> is_playing (run_playing_thread unused_formatter Spoken
      (fold (add_announcement unused_formatter) [ref_Y, ref_X] (new_queue [''v0''] ex_objects))) \<and>
   queue (run_playing_thread unused_formatter Spoken
      (fold (add_announcement unused_formatter) [ref_Y, ref_X] (new_queue [''v0''] ex_objects)))
     = [ref_X] \<and>
   threads_started (fold (add_announcement unused_formatter) [ref_A, ref_B]
      (run_playing_thread unused_formatter Spoken
        (fold (add_announcement unused_formatter) [ref_Y, ref_X] (new_queue [''v0''] ex_objects))))
     = [ref_Y, ref_X] \<and>
   queue (fold (add_announcement unused_formatter) [ref_A, ref_B]
      (run_playing_thread unused_formatter Spoken
        (fold (add_announcement unused_formatter) [ref_Y, ref_X] (new_queue [''v0''] ex_objects))))
     = [ref_B, ref_A]"
proof -
  let ?new = "new_queue [''v0''] ex_objects :: unit announcement_queue"
  let ?idle = "run_playing_thread unused_formatter Spoken
      (fold (add_announcement unused_formatter) [ref_Y, ref_X] ?new)"
  have i1: "\<not> is_playing ?new"
    by (simp add: new_queue_def is_playing_def)
  have q1: "queue ?new = []" "threads_started ?new = []" "objects ?new = ex_objects"
    by (simp_all add: new_queue_def)
  have i2: "\<not> is_playing ?idle"
    by (simp add: example_defs queue_defs)
  have q2: "queue ?idle = [ref_X]" "threads_started ?idle = [ref_Y]" "objects ?idle = ex_objects"
    by (simp_all add: example_defs queue_defs reschedule_def)
  note t1 = enqueue_order [of ?new unused_formatter ref_A "[ref_B, ref_C]", THEN mp, OF i1]
  note t2 = enqueue_order [of ?idle unused_formatter ref_A "[ref_B]", THEN mp, OF i2]
  have s1: "sort_key (key_in ex_objects) [ref_B, ref_C] = [ref_C, ref_B]"
    by (simp add: example_defs key_in_def queue_key_def)
  have s2: "sort_key (key_in ex_objects) [ref_X, ref_A] = [ref_X, ref_A]"
    "sort_key (key_in ex_objects) [ref_A, ref_B] = [ref_B, ref_A]"
    by (simp_all add: example_defs key_in_def queue_key_def)
  have r1: "threads_started (fold (add_announcement unused_formatter) [ref_A, ref_B, ref_C] ?new)
              = [ref_A]"
    "queue (fold (add_announcement unused_formatter) [ref_A, ref_B, ref_C] ?new) = [ref_C, ref_B]"
    using t1 q1 s1 by simp_all
  have r2: "threads_started (fold (add_announcement unused_formatter) [ref_A, ref_B] ?idle)
              = [ref_Y, ref_X]"
    "queue (fold (add_announcement unused_formatter) [ref_A, ref_B] ?idle) = [ref_B, ref_A]"
    using t2 q2 s2 by simp_all
  show ?thesis
    by (intro conjI; (rule i1 r1 i2 q2(1) r2))
qed

text \<open>
  C1 as stated fails on the specification's own example: A (priority 1, 10:00),
  B (priority 5, 10:05) and C (priority 5, 10:01) enqueued on a new queue. Sorting by
  the key gives C, B, A; the code starts A and holds C, B pending.
\<close>

theorem enqueue_order_counterexample:
  "threads_started (fold (add_announcement unused_formatter) [ref_A, ref_B, ref_C]
       (new_queue [''v0''] ex_objects))
     @ queue (fold (add_announcement unused_formatter) [ref_A, ref_B, ref_C]
       (new_queue [''v0''] ex_objects))
     = [ref_A, ref_C, ref_B] \<and>
   sort_key (key_in ex_objects) [ref_A, ref_B, ref_C] = [ref_C, ref_B, ref_A]"
  by (simp add: example_defs queue_defs)

section \<open>Interrupting with a live announcement\<close>

text \<open>
  C2, as amended. For every queue state and every announcement \<open>a\<close>,
  \<^verbatim>\<open>interrupt_with_live\<close> inserts \<open>a\<close> at position zero of the pending list with no
  priority comparison. If no playback thread is alive, \<open>a\<close> is dequeued at once and
  starts playing. If a playback is in progress, \<open>a\<close> is the head of the pending list
  when the call returns, the interrupted flag is set and the engine has been told to
  stop; nothing is dequeued by the call.
\<close>

theorem interrupt_inserts_front:
  "(is_playing st \<longrightarrow>
      queue (interrupt_with_live a st) = a # queue st \<and>
      interrupted (interrupt_with_live a st) \<and>
      engine_stops (interrupt_with_live a st) = engine_stops st + 1 \<and>
      current_announcement (interrupt_with_live a st) = current_announcement st \<and>
      threads_started (interrupt_with_live a st) = threads_started st) \<and>
   (\<not> is_playing st \<longrightarrow>
      queue (interrupt_with_live a st) = queue st \<and>
      current_announcement (interrupt_with_live a st) = Some a \<and>
      threads_started (interrupt_with_live a st) = threads_started st @ [a] \<and>
      is_playing (interrupt_with_live a st) \<and>
      engine_stops (interrupt_with_live a st) = engine_stops st) \<and>
   status_bar (interrupt_with_live a st) = status_bar st @ [''Live announcement started...''] \<and>
   objects (interrupt_with_live a st) = objects st"
  by (simp add: interrupt_with_live_def Let_def try_play_next_def is_playing_def showMessage_def
        acquire_def release_def accessing_def)

theorem interrupt_inserts_front_witness:
  "is_playing (fold (add_announcement unused_formatter) [ref_Y, ref_X]
      (new_queue [''v0''] ex_objects)) \<and>
   queue (interrupt_with_live ref_Z
     (fold (add_announcement unused_formatter) [ref_Y, ref_X] (new_queue [''v0''] ex_objects)))
     = [ref_Z, ref_X] \<and>
   \<not> is_playing (new_queue [''v0''] ex_objects) \<and>
   current_announcement (interrupt_with_live ref_Z (new_queue [''v0''] ex_objects)) = Some ref_Z \<and>
   threads_started (interrupt_with_live ref_Z (new_queue [''v0''] ex_objects)) = [ref_Z]"
  using
    interrupt_inserts_front [of "fold (add_announcement unused_formatter) [ref_Y, ref_X]
      (new_queue [''v0''] ex_objects)" ref_Z]
    interrupt_inserts_front [of "new_queue [''v0''] ex_objects" ref_Z]
  by (simp add: example_defs queue_defs)

text \<open>
  C2 as stated fails: Y is playing and X (priority 9) is pending when Z (priority 1)
  interrupts. Z is at the head, but when Y has finished and the next announcement W is
  enqueued, the list is sorted again and X is the one that starts; Z is still pending.
\<close>

theorem interrupt_plays_next_counterexample:
  "queue (interrupt_with_live ref_Z
            (fold (add_announcement unused_formatter) [ref_Y, ref_X]
               (new_queue [''v0''] ex_objects)))
     = [ref_Z, ref_X] \<and>
   threads_started
     (add_announcement unused_formatter ref_W
       (run_playing_thread unused_formatter Spoken
         (interrupt_with_live ref_Z
            (fold (add_announcement unused_formatter) [ref_Y, ref_X]
               (new_queue [''v0''] ex_objects)))))
     = [ref_Y, ref_X] \<and>
   queue
     (add_announcement unused_formatter ref_W
       (run_playing_thread unused_formatter Spoken
         (interrupt_with_live ref_Z
            (fold (add_announcement unused_formatter) [ref_Y, ref_X]
               (new_queue [''v0''] ex_objects)))))
     = [ref_Z, ref_W]"
  by (simp add: example_defs queue_defs)

section \<open>One-shot announcements\<close>

text \<open>
  C7. For every one-shot announcement (no repeat policy), the completion handler of its
  playback, which runs on the playback thread, leaves the pending list as it was,
  whether the playback ended normally, raised an error or was interrupted: the
  announcement is not enqueued again, it occurs in the pending list as often as
  before, and no playback is started for it.
\<close>

theorem one_shot_not_requeued:
  "is_playing st \<and> repeat (objects st a) = None \<longrightarrow>
     queue (state_after (play_announcement py outcome a st)) = queue st \<and>
     count_list (queue (state_after (play_announcement py outcome a st))) a
       = count_list (queue st) a \<and>
     threads_started (state_after (play_announcement py outcome a st)) = threads_started st \<and>
     current_announcement (state_after (play_announcement py outcome a st)) = None \<and>
     queue (run_playing_thread py outcome (st\<lparr>playing_thread := Some (Thread a True)\<rparr>))
       = queue st \<and>
     objects (state_after (play_announcement py outcome a st)) = objects st \<and>
     play_announcement py outcome a st = Inr (state_after (play_announcement py outcome a st))"
proof
  assume h: "is_playing st \<and> repeat (objects st a) = None"
  then have pl: "is_playing st" and rp: "repeat (objects st a) = None" by simp_all
  have eq: "play_announcement py outcome a st' =
      Inr ((speak py outcome a st')
             \<lparr>unlocked_accesses := unlocked_accesses (accessing (Write Current) st'),
              current_announcement := None\<rparr>)"
    if "is_playing st'" "repeat (objects st' a) = None" for st'
  proof -
    obtain sb where sp: "speak py outcome a st' = st'\<lparr>status_bar := sb\<rparr>"
      using speak_status_only [of py outcome a st'] by metis
    from that show ?thesis
      unfolding play_announcement_def sp
      by (simp add: Let_def try_play_next_def is_playing_def accessing_def)
  qed
  have pl': "is_playing (st\<lparr>playing_thread := Some (Thread a True)\<rparr>)"
    by (simp add: is_playing_def)
  have rp': "repeat (objects (st\<lparr>playing_thread := Some (Thread a True)\<rparr>) a) = None"
    using rp by simp
  have run: "queue (run_playing_thread py outcome (st\<lparr>playing_thread := Some (Thread a True)\<rparr>))
               = queue st"
    by (simp add: run_playing_thread_def Let_def eq [OF pl' rp'] state_after_def queue_speak)
  show "queue (state_after (play_announcement py outcome a st)) = queue st \<and>
     count_list (queue (state_after (play_announcement py outcome a st))) a
       = count_list (queue st) a \<and>
     threads_started (state_after (play_announcement py outcome a st)) = threads_started st \<and>
     current_announcement (state_after (play_announcement py outcome a st)) = None \<and>
     queue (run_playing_thread py outcome (st\<lparr>playing_thread := Some (Thread a True)\<rparr>))
       = queue st \<and>
     objects (state_after (play_announcement py outcome a st)) = objects st \<and>
     play_announcement py outcome a st = Inr (state_after (play_announcement py outcome a st))"
    using run
    by (simp add: eq [OF pl rp] state_after_def queue_speak threads_started_speak objects_speak)
qed

theorem one_shot_not_requeued_witness:
  "is_playing (fold (add_announcement unused_formatter) [ref_A, ref_B]
      (new_queue [''v0''] ex_objects)) \<and>
   repeat (objects (fold (add_announcement unused_formatter) [ref_A, ref_B]
      (new_queue [''v0''] ex_objects)) ref_A) = None \<and>
   queue (state_after (play_announcement unused_formatter (SpeakRaises ''device unavailable'') ref_A
            (fold (add_announcement unused_formatter) [ref_A, ref_B]
               (new_queue [''v0''] ex_objects)))) = [ref_B]"
  using one_shot_not_requeued [of "fold (add_announcement unused_formatter) [ref_A, ref_B]
      (new_queue [''v0''] ex_objects)" ref_A unused_formatter "SpeakRaises ''device unavailable''"]
  by (simp add: example_defs queue_defs)

section \<open>Rescheduling\<close>

lemma reschedule_daily:
  assumes "repeat a = Some Daily" "datetime_min \<le> play_time a"
    "play_time a + 86400000000 \<le> datetime_max"
  shows "reschedule a = Inr (a\<lparr>play_time := play_time a + 86400000000\<rparr>)"
  using assms by (simp add: reschedule_def datetime_add_def timedelta_days_def)

lemma reschedule_weekly:
  assumes "repeat a = Some Weekly" "datetime_min \<le> play_time a"
    "play_time a + 7 * 86400000000 \<le> datetime_max"
  shows "reschedule a = Inr (a\<lparr>play_time := play_time a + 7 * 86400000000\<rparr>)"
  using assms
  by (simp add: reschedule_def datetime_add_def timedelta_days_def timedelta_weeks_def)

lemma reschedule_overflow:
  assumes "repeat a \<noteq> None"
    "datetime_max < play_time a + (if repeat a = Some Daily then 86400000000 else 7 * 86400000000)"
  shows "reschedule a = Inl OverflowError"
proof -
  from assms(1) obtain r where r: "repeat a = Some r" by auto
  with assms(2) show ?thesis
    by (cases r)
       (simp_all add: reschedule_def datetime_add_def timedelta_days_def timedelta_weeks_def)
qed

lemma reschedule_times_daily:
  "repeat a = Some Daily \<Longrightarrow> datetime_min \<le> play_time a \<Longrightarrow>
   play_time a + int n * 86400000000 \<le> datetime_max \<Longrightarrow>
   reschedule_times n a = Inr (a\<lparr>play_time := play_time a + int n * 86400000000\<rparr>)"
proof (induction n arbitrary: a)
  case 0
  show ?case by simp
next
  case (Suc n)
  let ?a1 = "a\<lparr>play_time := play_time a + 86400000000\<rparr>"
  from Suc.prems(3) have one: "play_time a + 86400000000 \<le> datetime_max"
    by (simp add: algebra_simps)
  have r: "reschedule a = Inr ?a1"
    using Suc.prems(1,2) one by (rule reschedule_daily)
  have "reschedule_times n ?a1 = Inr (?a1\<lparr>play_time := play_time ?a1 + int n * 86400000000\<rparr>)"
    using Suc.prems by (intro Suc.IH) (simp_all add: algebra_simps)
  with r show ?case by (simp add: algebra_simps)
qed

lemma reschedule_times_weekly:
  "repeat a = Some Weekly \<Longrightarrow> datetime_min \<le> play_time a \<Longrightarrow>
   play_time a + int n * (7 * 86400000000) \<le> datetime_max \<Longrightarrow>
   reschedule_times n a = Inr (a\<lparr>play_time := play_time a + int n * (7 * 86400000000)\<rparr>)"
proof (induction n arbitrary: a)
  case 0
  show ?case by simp
next
  case (Suc n)
  let ?a1 = "a\<lparr>play_time := play_time a + 7 * 86400000000\<rparr>"
  from Suc.prems(3) have one: "play_time a + 7 * 86400000000 \<le> datetime_max"
    by (simp add: algebra_simps)
  have r: "reschedule a = Inr ?a1"
    using Suc.prems(1,2) one by (rule reschedule_weekly)
  have "reschedule_times n ?a1
          = Inr (?a1\<lparr>play_time := play_time ?a1 + int n * (7 * 86400000000)\<rparr>)"
    using Suc.prems by (intro Suc.IH) (simp_all add: algebra_simps)
  with r show ?case by (simp add: algebra_simps)
qed

lemma reschedule_forward:
  assumes "reschedule a = Inr a'"
  shows "play_time a \<le> play_time a' \<and> a' = a\<lparr>play_time := play_time a'\<rparr>"
  using assms
  by (auto simp: reschedule_def datetime_add_def timedelta_days_def timedelta_weeks_def
           split: if_splits)

text \<open>
  C6, as amended. For every announcement with a repeat policy whose \<^verbatim>\<open>play_time\<close>
  plus one interval is not after \<^verbatim>\<open>datetime.max\<close>, each call of \<^verbatim>\<open>reschedule\<close>
  advances \<^verbatim>\<open>play_time\<close> by exactly one interval (one day for daily, one week, that
  is seven days, for weekly) and changes nothing else, and \<open>n\<close> calls advance it by
  \<open>n\<close> intervals as long as the result is not after \<^verbatim>\<open>datetime.max\<close>. When
  \<^verbatim>\<open>play_time\<close> plus one interval is after \<^verbatim>\<open>datetime.max\<close>, \<^verbatim>\<open>reschedule\<close>
  raises \<^verbatim>\<open>OverflowError\<close> and assigns nothing. Rescheduling never moves
  \<^verbatim>\<open>play_time\<close> backward; without a repeat policy \<^verbatim>\<open>reschedule\<close> leaves the
  announcement unchanged.
\<close>

theorem reschedule_advances:
  "(repeat a = Some Daily \<and> datetime_min \<le> play_time a \<and>
      play_time a + 86400000000 \<le> datetime_max \<longrightarrow>
      reschedule a = Inr (a\<lparr>play_time := play_time a + 86400000000\<rparr>)) \<and>
   (repeat a = Some Weekly \<and> datetime_min \<le> play_time a \<and>
      play_time a + 7 * 86400000000 \<le> datetime_max \<longrightarrow>
      reschedule a = Inr (a\<lparr>play_time := play_time a + 7 * 86400000000\<rparr>)) \<and>
   (repeat a = Some Daily \<and> datetime_min \<le> play_time a \<and>
      play_time a + int n * 86400000000 \<le> datetime_max \<longrightarrow>
      reschedule_times n a = Inr (a\<lparr>play_time := play_time a + int n * 86400000000\<rparr>)) \<and>
   (repeat a = Some Weekly \<and> datetime_min \<le> play_time a \<and>
      play_time a + int n * (7 * 86400000000) \<le> datetime_max \<longrightarrow>
      reschedule_times n a
        = Inr (a\<lparr>play_time := play_time a + int n * (7 * 86400000000)\<rparr>)) \<and>
   (repeat a = Some Daily \<and> datetime_max < play_time a + 86400000000 \<longrightarrow>
      reschedule a = Inl OverflowError) \<and>
   (repeat a = Some Weekly \<and> datetime_max < play_time a + 7 * 86400000000 \<longrightarrow>
      reschedule a = Inl OverflowError) \<and>
   (repeat a = None \<longrightarrow> reschedule a = Inr a) \<and>
   (\<forall>a'. reschedule a = Inr a' \<longrightarrow>
      play_time a \<le> play_time a' \<and> a' = a\<lparr>play_time := play_time a'\<rparr>)"
proof -
  have d1: "repeat a = Some Daily \<and> datetime_min \<le> play_time a \<and>
      play_time a + 86400000000 \<le> datetime_max \<longrightarrow>
      reschedule a = Inr (a\<lparr>play_time := play_time a + 86400000000\<rparr>)"
    by (blast intro: reschedule_daily)
  have w1: "repeat a = Some Weekly \<and> datetime_min \<le> play_time a \<and>
      play_time a + 7 * 86400000000 \<le> datetime_max \<longrightarrow>
      reschedule a = Inr (a\<lparr>play_time := play_time a + 7 * 86400000000\<rparr>)"
    by (blast intro: reschedule_weekly)
  have dn: "repeat a = Some Daily \<and> datetime_min \<le> play_time a \<and>
      play_time a + int n * 86400000000 \<le> datetime_max \<longrightarrow>
      reschedule_times n a = Inr (a\<lparr>play_time := play_time a + int n * 86400000000\<rparr>)"
    by (blast intro: reschedule_times_daily)
  have wn: "repeat a = Some Weekly \<and> datetime_min \<le> play_time a \<and>
      play_time a + int n * (7 * 86400000000) \<le> datetime_max \<longrightarrow>
      reschedule_times n a
        = Inr (a\<lparr>play_time := play_time a + int n * (7 * 86400000000)\<rparr>)"
    by (blast intro: reschedule_times_weekly)
  have od: "repeat a = Some Daily \<and> datetime_max < play_time a + 86400000000 \<longrightarrow>
      reschedule a = Inl OverflowError"
    using reschedule_overflow [of a] by simp
  have ow: "repeat a = Some Weekly \<and> datetime_max < play_time a + 7 * 86400000000 \<longrightarrow>
      reschedule a = Inl OverflowError"
    using reschedule_overflow [of a] by simp
  have no: "repeat a = None \<longrightarrow> reschedule a = Inr a"
    by (simp add: reschedule_def)
  have fw: "\<forall>a'. reschedule a = Inr a' \<longrightarrow>
      play_time a \<le> play_time a' \<and> a' = a\<lparr>play_time := play_time a'\<rparr>"
    by (intro allI impI) (rule reschedule_forward)
  show ?thesis
    by (intro conjI; (rule d1 w1 dn wn od ow no fw))
qed

theorem reschedule_advances_witness:
  "reschedule ex_weekly = Inr (ex_weekly\<lparr>play_time := 1705305600000000\<rparr>) \<and>
   reschedule_times 3 ex_weekly = Inr (ex_weekly\<lparr>play_time := 1706515200000000\<rparr>) \<and>
   reschedule (ex_weekly\<lparr>repeat := Some Daily\<rparr>)
     = Inr (ex_weekly\<lparr>repeat := Some Daily, play_time := 1704787200000000\<rparr>) \<and>
   reschedule_times 3 (ex_weekly\<lparr>repeat := Some Daily\<rparr>)
     = Inr (ex_weekly\<lparr>repeat := Some Daily, play_time := 1704960000000000\<rparr>) \<and>
   reschedule ex_last_day = Inl OverflowError \<and>
   reschedule (ex_last_day\<lparr>repeat := Some Weekly\<rparr>) = Inl OverflowError \<and>
   reschedule ex_A = Inr ex_A"
proof -
  have w: "repeat ex_weekly = Some Weekly \<and> datetime_min \<le> play_time ex_weekly \<and>
      play_time ex_weekly + 7 * 86400000000 \<le> datetime_max"
    by (simp add: ex_weekly_def datetime_min_def datetime_max_def)
  have wn: "repeat ex_weekly = Some Weekly \<and> datetime_min \<le> play_time ex_weekly \<and>
      play_time ex_weekly + int 3 * (7 * 86400000000) \<le> datetime_max"
    by (simp add: ex_weekly_def datetime_min_def datetime_max_def)
  let ?d = "ex_weekly\<lparr>repeat := Some Daily\<rparr>"
  have d: "repeat ?d = Some Daily \<and> datetime_min \<le> play_time ?d \<and>
      play_time ?d + 86400000000 \<le> datetime_max"
    by (simp add: ex_weekly_def datetime_min_def datetime_max_def)
  have dn: "repeat ?d = Some Daily \<and> datetime_min \<le> play_time ?d \<and>
      play_time ?d + int 3 * 86400000000 \<le> datetime_max"
    by (simp add: ex_weekly_def datetime_min_def datetime_max_def)
  have od: "repeat ex_last_day = Some Daily \<and> datetime_max < play_time ex_last_day + 86400000000"
    by (simp add: ex_last_day_def datetime_max_def)
  let ?lw = "ex_last_day\<lparr>repeat := Some Weekly\<rparr>"
  have ow: "repeat ?lw = Some Weekly \<and> datetime_max < play_time ?lw + 7 * 86400000000"
    by (simp add: ex_last_day_def datetime_max_def)
  have no: "repeat ex_A = None" by (simp add: ex_A_def)
  have r1: "reschedule ex_weekly = Inr (ex_weekly\<lparr>play_time := 1705305600000000\<rparr>)"
    using reschedule_advances [of ex_weekly 0, THEN conjunct2, THEN conjunct1, THEN mp, OF w]
    by (simp add: ex_weekly_def)
  have r2: "reschedule_times 3 ex_weekly = Inr (ex_weekly\<lparr>play_time := 1706515200000000\<rparr>)"
    using reschedule_advances [of ex_weekly 3, THEN conjunct2, THEN conjunct2, THEN conjunct2,
        THEN conjunct1, THEN mp, OF wn]
    by (simp add: ex_weekly_def)
  have r3: "reschedule ?d = Inr (ex_weekly\<lparr>repeat := Some Daily, play_time := 1704787200000000\<rparr>)"
    using reschedule_advances [of ?d 0, THEN conjunct1, THEN mp, OF d]
    by (simp add: ex_weekly_def)
  have r4: "reschedule_times 3 ?d
      = Inr (ex_weekly\<lparr>repeat := Some Daily, play_time := 1704960000000000\<rparr>)"
    using reschedule_advances [of ?d 3, THEN conjunct2, THEN conjunct2, THEN conjunct1,
        THEN mp, OF dn]
    by (simp add: ex_weekly_def)
  have r5: "reschedule ex_last_day = Inl OverflowError"
    by (rule reschedule_advances [of ex_last_day 0, THEN conjunct2, THEN conjunct2,
        THEN conjunct2, THEN conjunct2, THEN conjunct1, THEN mp, OF od])
  have r6: "reschedule ?lw = Inl OverflowError"
    by (rule reschedule_advances [of ?lw 0, THEN conjunct2, THEN conjunct2,
        THEN conjunct2, THEN conjunct2, THEN conjunct2, THEN conjunct1, THEN mp, OF ow])
  have r7: "reschedule ex_A = Inr ex_A"
    by (rule reschedule_advances [of ex_A 0, THEN conjunct2, THEN conjunct2,
        THEN conjunct2, THEN conjunct2, THEN conjunct2, THEN conjunct2, THEN conjunct1,
        THEN mp, OF no])
  show ?thesis
    by (intro conjI; (rule r1 r2 r3 r4 r5 r6 r7))
qed

text \<open>
  C6 as stated fails on the last day of \<^verbatim>\<open>datetime\<close>: the daily announcement for
  9999-12-31 08:00 is not advanced by a day; \<^verbatim>\<open>reschedule\<close> raises
  \<^verbatim>\<open>OverflowError\<close>.
\<close>

theorem reschedule_overflow_counterexample:
  "repeat ex_last_day = Some Daily \<and>
   datetime_min \<le> play_time ex_last_day \<and> play_time ex_last_day \<le> datetime_max \<and>
   reschedule ex_last_day = Inl OverflowError"
  by (simp add: ex_last_day_def reschedule_def datetime_add_def timedelta_days_def
        datetime_min_def datetime_max_def)

section \<open>Recurrence\<close>







section \<open>Basic facts about rendering\<close>














section \<open>Rendering\<close>




section \<open>Playback errors\<close>

text \<open>
  An error of the speech engine is shown in the status bar, and the \<^verbatim>\<open>finally\<close> block
  does after it what it does after a playback without error: the two outcomes differ in
  the status bar only.
\<close>

lemma speak_error_reported:
  "\<exists>msg. status_bar (speak py (SpeakRaises e) r st) = status_bar st @ msg \<and>
      take 27 (last (status_bar (speak py (SpeakRaises e) r st))) = ''Error playing announcement:''"
  by (simp add: speak_def showMessage_def split: sum.splits)

lemma speak_outcomes_differ_in_status_only:
  "(speak py outcome r st)\<lparr>status_bar := []\<rparr> = st\<lparr>status_bar := []\<rparr>"
  by (subst speak_status_only) simp

lemma play_announcement_error_as_completion:
  assumes "is_playing st"
  shows "(state_after (play_announcement py outcome r st))\<lparr>status_bar := []\<rparr>
           = (state_after (play_announcement py Spoken r st))\<lparr>status_bar := []\<rparr>"
    and "isl (play_announcement py outcome r st) = isl (play_announcement py Spoken r st)"
proof -
  obtain sb where sp: "speak py outcome r st = st\<lparr>status_bar := sb\<rparr>"
    using speak_status_only [of py outcome r st] by metis
  obtain sb' where sp': "speak py Spoken r st = st\<lparr>status_bar := sb'\<rparr>"
    using speak_status_only [of py Spoken r st] by metis
  from assms show
    "(state_after (play_announcement py outcome r st))\<lparr>status_bar := []\<rparr>
           = (state_after (play_announcement py Spoken r st))\<lparr>status_bar := []\<rparr>"
    "isl (play_announcement py outcome r st) = isl (play_announcement py Spoken r st)"
    unfolding play_announcement_def sp sp'
    by (simp_all add: Let_def state_after_def add_announcement_def try_play_next_def
          is_playing_def accessing_def acquire_def release_def showMessage_def
          split: sum.splits)
qed

text \<open>After the playback thread has ended no thread is alive, so that the next call of
  \<^verbatim>\<open>add_announcement\<close> starts a playback (\<open>add_announcement_idle\<close>).\<close>

lemma run_playing_thread_ends:
  "\<not> is_playing (run_playing_thread py outcome st)"
proof (cases "playing_thread st")
  case None
  then show ?thesis by (simp add: run_playing_thread_def is_playing_def)
next
  case (Some t)
  show ?thesis
  proof (cases "thread_alive t")
    case False
    with Some show ?thesis by (simp add: run_playing_thread_def is_playing_def)
  next
    case True
    with Some show ?thesis
      by (simp add: run_playing_thread_def is_playing_def Let_def split: option.splits)
  qed
qed

text \<open>
  C8. The claim holds of the error report, of the absence of a retry, of the
  re-enqueueing and of the queue staying serviceable, but not of ``next pending item
  started'': the completion handler calls \<^verbatim>\<open>_try_play_next\<close> on the playback thread
  itself, which is alive, so the call returns without dequeuing. Here A is playing and
  B is pending when the engine raises: the error is shown, nothing is current, B is
  still pending and no playback was started for it, and no playback thread is alive.
  B starts only with the next call that enqueues something.
\<close>

theorem playback_error_leaves_next_pending:
  "status_bar (run_playing_thread unused_formatter (SpeakRaises ''device unavailable'')
      (fold (add_announcement unused_formatter) [ref_A, ref_B] (new_queue [''v0''] ex_objects)))
     = [''Announcement queued: A'', ''Announcement queued: B'', ''Playing: A'',
        ''Error playing announcement: device unavailable''] \<and>
   current_announcement (run_playing_thread unused_formatter (SpeakRaises ''device unavailable'')
      (fold (add_announcement unused_formatter) [ref_A, ref_B] (new_queue [''v0''] ex_objects)))
     = None \<and>
   queue (run_playing_thread unused_formatter (SpeakRaises ''device unavailable'')
      (fold (add_announcement unused_formatter) [ref_A, ref_B] (new_queue [''v0''] ex_objects)))
     = [ref_B] \<and>
   threads_started (run_playing_thread unused_formatter (SpeakRaises ''device unavailable'')
      (fold (add_announcement unused_formatter) [ref_A, ref_B] (new_queue [''v0''] ex_objects)))
     = [ref_A] \<and>
   \<not> is_playing (run_playing_thread unused_formatter (SpeakRaises ''device unavailable'')
      (fold (add_announcement unused_formatter) [ref_A, ref_B] (new_queue [''v0''] ex_objects))) \<and>
   threads_started (add_announcement unused_formatter ref_W
     (run_playing_thread unused_formatter (SpeakRaises ''device unavailable'')
      (fold (add_announcement unused_formatter) [ref_A, ref_B] (new_queue [''v0''] ex_objects))))
     = [ref_A, ref_B]"
  by (simp add: example_defs queue_defs get_text_def)

section \<open>The due-checker's tick\<close>

text \<open>
  C9. The claim fails on the code: the loop removes a due one-shot announcement from
  the list it is iterating over, so the element after it is never visited. With the
  watch list A, B, both one-shot and due, one tick enqueues A and removes it; B is
  neither enqueued nor removed.
\<close>

theorem check_schedules_skips_after_removal:
  "is_due (ex_objects ref_A) 40000000000 \<and> is_due (ex_objects ref_B) 40000000000 \<and>
   repeat (ex_objects ref_A) = None \<and> repeat (ex_objects ref_B) = None \<and>
   schedule_manager_announcements
     (check_schedules unused_formatter 40000000000
        \<lparr>schedule_manager_announcements = [ref_A, ref_B],
         announcement_queue = new_queue [''v0''] ex_objects\<rparr>) = [ref_B] \<and>
   threads_started (announcement_queue
     (check_schedules unused_formatter 40000000000
        \<lparr>schedule_manager_announcements = [ref_A, ref_B],
         announcement_queue = new_queue [''v0''] ex_objects\<rparr>)) = [ref_A] \<and>
   queue (announcement_queue
     (check_schedules unused_formatter 40000000000
        \<lparr>schedule_manager_announcements = [ref_A, ref_B],
         announcement_queue = new_queue [''v0''] ex_objects\<rparr>)) = []"
  by (simp add: example_defs queue_defs check_schedules_def is_due_def)

section \<open>The two pairs of definitions\<close>

text \<open>
  C5. The second \<^verbatim>\<open>AnnouncementQueue\<close> is not equivalent to the engine's. Its
  \<^verbatim>\<open>add_announcement\<close> appends to the end of the list and shows a message: nothing is
  sorted, and it has no thread and no current announcement, so nothing is played. Its
  \<^verbatim>\<open>interrupt_with_live\<close> shows a message and leaves the list as it is. On the calls
  enqueue A, B, C the engine holds C, B (A is playing) and the second queue A, B, C; on
  enqueue Y, X, interrupt Z the engine holds Z, X and the second queue Y, X.
\<close>

theorem second_definitions_differ:
  "dummy_queue (dummy_add_announcement ann dq) = dummy_queue dq @ [ann] \<and>
   dummy_status_bar (dummy_add_announcement ann dq)
     = dummy_status_bar dq @ [''Queued: '' @ dummy_text ann] \<and>
   dummy_queue (dummy_interrupt_with_live ann dq) = dummy_queue dq \<and>
   dummy_status_bar (dummy_interrupt_with_live ann dq)
     = dummy_status_bar dq @ [''Live: '' @ dummy_text ann] \<and>
   map (as_dummy \<circ> ex_objects)
     (queue (fold (add_announcement unused_formatter) [ref_A, ref_B, ref_C]
               (new_queue [''v0''] ex_objects))) = [as_dummy ex_C, as_dummy ex_B] \<and>
   dummy_queue (fold dummy_add_announcement (map (as_dummy \<circ> ex_objects) [ref_A, ref_B, ref_C])
                  (new_dummy_queue [''v0''])) = [as_dummy ex_A, as_dummy ex_B, as_dummy ex_C] \<and>
   map (as_dummy \<circ> ex_objects)
     (queue (fold (add_announcement unused_formatter) [ref_A, ref_B, ref_C]
               (new_queue [''v0''] ex_objects))) \<noteq>
     dummy_queue (fold dummy_add_announcement (map (as_dummy \<circ> ex_objects) [ref_A, ref_B, ref_C])
                  (new_dummy_queue [''v0''])) \<and>
   map (as_dummy \<circ> ex_objects) (queue (interrupt_with_live ref_Z
       (fold (add_announcement unused_formatter) [ref_Y, ref_X] (new_queue [''v0''] ex_objects))))
     = [as_dummy ex_Z, as_dummy ex_X] \<and>
   dummy_queue (dummy_interrupt_with_live (as_dummy ex_Z)
       (fold dummy_add_announcement (map (as_dummy \<circ> ex_objects) [ref_Y, ref_X])
          (new_dummy_queue [''v0''])))
     = [as_dummy ex_Y, as_dummy ex_X] \<and>
   map (as_dummy \<circ> ex_objects) (queue (interrupt_with_live ref_Z
       (fold (add_announcement unused_formatter) [ref_Y, ref_X] (new_queue [''v0''] ex_objects))))
     \<noteq> dummy_queue (dummy_interrupt_with_live (as_dummy ex_Z)
       (fold dummy_add_announcement (map (as_dummy \<circ> ex_objects) [ref_Y, ref_X])
          (new_dummy_queue [''v0''])))"
proof -
  have general:
    "dummy_queue (dummy_add_announcement ann dq) = dummy_queue dq @ [ann]"
    "dummy_status_bar (dummy_add_announcement ann dq)
       = dummy_status_bar dq @ [''Queued: '' @ dummy_text ann]"
    "dummy_queue (dummy_interrupt_with_live ann dq) = dummy_queue dq"
    "dummy_status_bar (dummy_interrupt_with_live ann dq)
       = dummy_status_bar dq @ [''Live: '' @ dummy_text ann]"
    by (simp_all add: dummy_add_announcement_def dummy_interrupt_with_live_def Let_def)
  have objs: "ex_objects ref_A = ex_A" "ex_objects ref_B = ex_B" "ex_objects ref_C = ex_C"
    "ex_objects ref_X = ex_X" "ex_objects ref_Y = ex_Y" "ex_objects ref_Z = ex_Z"
    by (simp_all add: ex_objects_def ref_A_def ref_B_def ref_C_def ref_X_def ref_Y_def ref_Z_def)
  have e1: "queue (fold (add_announcement unused_formatter) [ref_A, ref_B, ref_C]
                          (new_queue [''v0''] ex_objects)) = [ref_C, ref_B]"
    by (simp add: example_defs queue_defs)
  have d1: "dummy_queue (fold dummy_add_announcement (map (as_dummy \<circ> ex_objects) [ref_A, ref_B, ref_C])
                  (new_dummy_queue [''v0''])) = [as_dummy ex_A, as_dummy ex_B, as_dummy ex_C]"
    by (simp add: dummy_add_announcement_def new_dummy_queue_def Let_def objs)
  have e2: "queue (interrupt_with_live ref_Z
       (fold (add_announcement unused_formatter) [ref_Y, ref_X] (new_queue [''v0''] ex_objects)))
       = [ref_Z, ref_X]"
    by (simp add: example_defs queue_defs)
  have d2: "dummy_queue (dummy_interrupt_with_live (as_dummy ex_Z)
       (fold dummy_add_announcement (map (as_dummy \<circ> ex_objects) [ref_Y, ref_X])
          (new_dummy_queue [''v0''])))
       = [as_dummy ex_Y, as_dummy ex_X]"
    by (simp add: dummy_add_announcement_def dummy_interrupt_with_live_def new_dummy_queue_def
          Let_def objs)
  have n2: "as_dummy ex_Z \<noteq> as_dummy ex_Y"
    by (simp add: as_dummy_def ex_Z_def ex_Y_def)
  show ?thesis
    unfolding e1 d1 e2 d2 using general n2 by (simp add: objs)
qed

section \<open>The lock and the interrupted flag\<close>

text \<open>None of the operations reads \<^verbatim>\<open>interrupted\<close>: started with another value of
  the flag, each does the same to everything else.\<close>

lemma try_play_next_ignores_interrupted:
  "(try_play_next (st\<lparr>interrupted := b\<rparr>))\<lparr>interrupted := c\<rparr>
     = (try_play_next st)\<lparr>interrupted := c\<rparr>"
  by (simp add: try_play_next_def is_playing_def accessing_def Let_def split: list.splits)

lemma add_announcement_ignores_interrupted:
  "(add_announcement py r (st\<lparr>interrupted := b\<rparr>))\<lparr>interrupted := c\<rparr>
     = (add_announcement py r st)\<lparr>interrupted := c\<rparr>"
  by (simp add: add_announcement_def try_play_next_def is_playing_def accessing_def Let_def
        acquire_def release_def showMessage_def split: list.splits)

lemma interrupt_with_live_ignores_interrupted:
  "(interrupt_with_live r (st\<lparr>interrupted := b\<rparr>))\<lparr>interrupted := c\<rparr>
     = (interrupt_with_live r st)\<lparr>interrupted := c\<rparr>"
  by (simp add: interrupt_with_live_def try_play_next_def is_playing_def accessing_def Let_def
        acquire_def release_def showMessage_def split: list.splits)

lemma speak_ignores_interrupted:
  "speak py outcome r (st\<lparr>interrupted := b\<rparr>) = (speak py outcome r st)\<lparr>interrupted := b\<rparr>"
  by (simp add: speak_def showMessage_def split: sum.splits playback.splits)

lemma play_announcement_ignores_interrupted:
  "(state_after (play_announcement py outcome r (st\<lparr>interrupted := b\<rparr>)))\<lparr>interrupted := c\<rparr>
     = (state_after (play_announcement py outcome r st))\<lparr>interrupted := c\<rparr>"
proof -
  obtain sb where sp: "speak py outcome r st = st\<lparr>status_bar := sb\<rparr>"
    using speak_status_only [of py outcome r st] by metis
  note defs = Let_def state_after_def add_announcement_def try_play_next_def
          is_playing_def accessing_def acquire_def release_def showMessage_def
  show ?thesis
  proof (cases "repeat (objects st r) = None")
    case True
    show ?thesis
    proof (cases "queue st")
      case Nil
      with True show ?thesis
        unfolding play_announcement_def speak_ignores_interrupted sp
        by (simp add: defs)
    next
      case (Cons x xs)
      with True show ?thesis
        unfolding play_announcement_def speak_ignores_interrupted sp
        by (simp add: defs)
    qed
  next
    case False
    show ?thesis
    proof (cases "reschedule (objects st r)")
      case (Inl e)
      with False show ?thesis
        unfolding play_announcement_def speak_ignores_interrupted sp
        by (simp add: defs)
    next
      case (Inr a')
      have "sort_key (key_in ((objects st)(r := a'))) (queue st @ [r]) \<noteq> []"
        by (metis append_is_Nil_conv length_0_conv length_sort not_Cons_self2)
      then obtain x xs
        where s: "sort_key (key_in ((objects st)(r := a'))) (queue st @ [r]) = x # xs"
        by (cases "sort_key (key_in ((objects st)(r := a'))) (queue st @ [r])") auto
      show ?thesis
      proof (cases "playing_thread st")
        case None
        with False Inr s show ?thesis
          unfolding play_announcement_def speak_ignores_interrupted sp
          by (simp add: defs)
      next
        case (Some t)
        obtain y al where t: "t = Thread y al" by (cases t)
        show ?thesis
        proof (cases al)
          case True
          with False Inr s Some t show ?thesis
            unfolding play_announcement_def speak_ignores_interrupted sp
            by (simp add: defs)
        next
          case al: False
          with False Inr s Some t show ?thesis
            unfolding play_announcement_def speak_ignores_interrupted sp
            by (simp add: defs)
        qed
      qed
    qed
  qed
qed

lemma run_playing_thread_ignores_interrupted:
  "(run_playing_thread py outcome (st\<lparr>interrupted := b\<rparr>))\<lparr>interrupted := c\<rparr>
     = (run_playing_thread py outcome st)\<lparr>interrupted := c\<rparr>"
proof (cases "playing_thread st")
  case None
  then show ?thesis by (simp add: run_playing_thread_def)
next
  case (Some t)
  show ?thesis
  proof (cases "thread_alive t")
    case False
    with Some show ?thesis by (simp add: run_playing_thread_def)
  next
    case True
    let ?p = "state_after (play_announcement py outcome (thread_args t) st)"
    let ?q = "state_after (play_announcement py outcome (thread_args t) (st\<lparr>interrupted := b\<rparr>))"
    have pq: "?q\<lparr>interrupted := c\<rparr> = ?p\<lparr>interrupted := c\<rparr>"
      by (rule play_announcement_ignores_interrupted)
    then have "playing_thread (?q\<lparr>interrupted := c\<rparr>) = playing_thread (?p\<lparr>interrupted := c\<rparr>)"
      by simp
    then have th: "playing_thread ?q = playing_thread ?p" by simp
    have "(?q\<lparr>playing_thread := x\<rparr>)\<lparr>interrupted := c\<rparr>
            = (?p\<lparr>playing_thread := x\<rparr>)\<lparr>interrupted := c\<rparr>" for x
    proof -
      have "(?q\<lparr>playing_thread := x\<rparr>)\<lparr>interrupted := c\<rparr>
              = (?q\<lparr>interrupted := c\<rparr>)\<lparr>playing_thread := x\<rparr>" by simp
      also have "\<dots> = (?p\<lparr>interrupted := c\<rparr>)\<lparr>playing_thread := x\<rparr>" by (simp only: pq)
      also have "\<dots> = (?p\<lparr>playing_thread := x\<rparr>)\<lparr>interrupted := c\<rparr>" by simp
      finally show ?thesis .
    qed
    with Some True th show ?thesis
      by (simp add: run_playing_thread_def Let_def)
  qed
qed

text \<open>
  C10. The claim fails on the code. The lock is taken by \<^verbatim>\<open>add_announcement\<close>,
  around the append and the sort, and by \<^verbatim>\<open>interrupt_with_live\<close>, around the flag
  and the insertion. \<^verbatim>\<open>_try_play_next\<close> tests and pops the pending list and sets
  \<^verbatim>\<open>current_announcement\<close> and \<^verbatim>\<open>interrupted\<close> outside it, and the completion
  handler clears \<^verbatim>\<open>current_announcement\<close> outside it. \<^verbatim>\<open>interrupted\<close> is written
  and never read, so it prevents nothing. With Y playing and X pending, Z interrupts
  and Y's playback ends: five accesses were made without the lock, the flag is still
  set, and no code path has dequeued the next item: Z and X are pending and no
  playback thread is alive.
\<close>

theorem unlocked_accesses_and_unread_flag:
  "unlocked_accesses (try_play_next (st\<lparr>lock_held := False\<rparr>))
     = unlocked_accesses st @
         (if is_playing st then []
          else if queue st = [] then [Read Queue]
          else [Read Queue, Write Queue, Write Current, Write Interrupted]) \<and>
   unlocked_accesses (add_announcement py r st)
     = unlocked_accesses st @
         (if is_playing st then []
          else [Read Queue, Write Queue, Write Current, Write Interrupted]) \<and>
   unlocked_accesses (interrupt_with_live r st)
     = unlocked_accesses st @
         (if is_playing st then []
          else [Read Queue, Write Queue, Write Current, Write Interrupted]) \<and>
   unlocked_accesses (state_after (play_announcement py outcome r
        (st\<lparr>lock_held := False, playing_thread := Some (Thread r True)\<rparr>)))
     = unlocked_accesses st @
         (if repeat (objects st r) \<noteq> None \<and> isl (reschedule (objects st r)) then []
          else [Write Current]) \<and>
   (try_play_next (st\<lparr>interrupted := b\<rparr>))\<lparr>interrupted := c\<rparr>
     = (try_play_next st)\<lparr>interrupted := c\<rparr> \<and>
   (add_announcement py r (st\<lparr>interrupted := b\<rparr>))\<lparr>interrupted := c\<rparr>
     = (add_announcement py r st)\<lparr>interrupted := c\<rparr> \<and>
   (interrupt_with_live r (st\<lparr>interrupted := b\<rparr>))\<lparr>interrupted := c\<rparr>
     = (interrupt_with_live r st)\<lparr>interrupted := c\<rparr> \<and>
   (run_playing_thread py outcome (st\<lparr>interrupted := b\<rparr>))\<lparr>interrupted := c\<rparr>
     = (run_playing_thread py outcome st)\<lparr>interrupted := c\<rparr> \<and>
   interrupted (interrupt_with_live ref_Z
      (fold (add_announcement unused_formatter) [ref_Y, ref_X] (new_queue [''v0''] ex_objects))) \<and>
   unlocked_accesses (run_playing_thread unused_formatter Spoken
      (interrupt_with_live ref_Z
        (fold (add_announcement unused_formatter) [ref_Y, ref_X] (new_queue [''v0''] ex_objects))))
     = [Read Queue, Write Queue, Write Current, Write Interrupted, Write Current] \<and>
   interrupted (run_playing_thread unused_formatter Spoken
      (interrupt_with_live ref_Z
        (fold (add_announcement unused_formatter) [ref_Y, ref_X] (new_queue [''v0''] ex_objects)))) \<and>
   threads_started (run_playing_thread unused_formatter Spoken
      (interrupt_with_live ref_Z
        (fold (add_announcement unused_formatter) [ref_Y, ref_X] (new_queue [''v0''] ex_objects))))
     = [ref_Y] \<and>
   queue (run_playing_thread unused_formatter Spoken
      (interrupt_with_live ref_Z
        (fold (add_announcement unused_formatter) [ref_Y, ref_X] (new_queue [''v0''] ex_objects))))
     = [ref_Z, ref_X] \<and>
   \<not> is_playing (run_playing_thread unused_formatter Spoken
      (interrupt_with_live ref_Z
        (fold (add_announcement unused_formatter) [ref_Y, ref_X] (new_queue [''v0''] ex_objects))))"
proof -
  have a1: "unlocked_accesses (try_play_next (st\<lparr>lock_held := False\<rparr>))
     = unlocked_accesses st @
         (if is_playing st then []
          else if queue st = [] then [Read Queue]
          else [Read Queue, Write Queue, Write Current, Write Interrupted])"
    by (simp add: try_play_next_def is_playing_def accessing_def Let_def split: list.splits)
  have a2: "unlocked_accesses (add_announcement py r st)
     = unlocked_accesses st @
         (if is_playing st then []
          else [Read Queue, Write Queue, Write Current, Write Interrupted])"
  proof (cases "is_playing st")
    case True
    then show ?thesis by (simp add: add_announcement_playing)
  next
    case False
    have "sort_key (key_in (objects st)) (queue st @ [r]) \<noteq> []"
      by (metis append_is_Nil_conv length_0_conv length_sort not_Cons_self2)
    then obtain x xs where "sort_key (key_in (objects st)) (queue st @ [r]) = x # xs"
      by (cases "sort_key (key_in (objects st)) (queue st @ [r])") auto
    with False show ?thesis
      by (simp add: add_announcement_def Let_def try_play_next_def is_playing_def
            showMessage_def acquire_def release_def accessing_def)
  qed
  have a3: "unlocked_accesses (interrupt_with_live r st)
     = unlocked_accesses st @
         (if is_playing st then []
          else [Read Queue, Write Queue, Write Current, Write Interrupted])"
    by (simp add: interrupt_with_live_def Let_def try_play_next_def is_playing_def
          showMessage_def acquire_def release_def accessing_def)
  have a4: "unlocked_accesses (state_after (play_announcement py outcome r
        (st\<lparr>lock_held := False, playing_thread := Some (Thread r True)\<rparr>)))
     = unlocked_accesses st @
         (if repeat (objects st r) \<noteq> None \<and> isl (reschedule (objects st r)) then []
          else [Write Current])"
  proof -
    let ?st = "st\<lparr>lock_held := False, playing_thread := Some (Thread r True)\<rparr>"
    obtain sb where sp: "speak py outcome r ?st = ?st\<lparr>status_bar := sb\<rparr>"
      using speak_status_only [of py outcome r ?st] by metis
    show ?thesis
      unfolding play_announcement_def sp
      by (simp add: Let_def state_after_def add_announcement_def try_play_next_def
            is_playing_def accessing_def acquire_def release_def showMessage_def
            split: sum.splits)
  qed
  have c1: "interrupted (interrupt_with_live ref_Z
      (fold (add_announcement unused_formatter) [ref_Y, ref_X] (new_queue [''v0''] ex_objects)))"
    by (simp add: example_defs queue_defs)
  have c2: "unlocked_accesses (run_playing_thread unused_formatter Spoken
      (interrupt_with_live ref_Z
        (fold (add_announcement unused_formatter) [ref_Y, ref_X] (new_queue [''v0''] ex_objects))))
     = [Read Queue, Write Queue, Write Current, Write Interrupted, Write Current]"
    by (simp add: example_defs queue_defs)
  have c3: "interrupted (run_playing_thread unused_formatter Spoken
      (interrupt_with_live ref_Z
        (fold (add_announcement unused_formatter) [ref_Y, ref_X] (new_queue [''v0''] ex_objects))))"
    by (simp add: example_defs queue_defs)
  have c4: "threads_started (run_playing_thread unused_formatter Spoken
      (interrupt_with_live ref_Z
        (fold (add_announcement unused_formatter) [ref_Y, ref_X] (new_queue [''v0''] ex_objects))))
     = [ref_Y]"
    by (simp add: example_defs queue_defs)
  have c5: "queue (run_playing_thread unused_formatter Spoken
      (interrupt_with_live ref_Z
        (fold (add_announcement unused_formatter) [ref_Y, ref_X] (new_queue [''v0''] ex_objects))))
     = [ref_Z, ref_X]"
    by (simp add: example_defs queue_defs)
  have c6: "\<not> is_playing (run_playing_thread unused_formatter Spoken
      (interrupt_with_live ref_Z
        (fold (add_announcement unused_formatter) [ref_Y, ref_X] (new_queue [''v0''] ex_objects))))"
    by (rule run_playing_thread_ends)
  show ?thesis
    by (intro conjI;
        (rule a1 a2 a3 a4 try_play_next_ignores_interrupted add_announcement_ignores_interrupted
           interrupt_with_live_ignores_interrupted run_playing_thread_ignores_interrupted
           c1 c2 c3 c4 c5 c6))
qed

end
